theory Spec2Isabelle
  imports Main
begin

section \<open>Outcomes of a call\<close>

text \<open>
  A Go call either returns, panics, or never returns (it waits on a channel that
  nobody serves). The three are kept apart, so that a panic or a blocked call is a
  value of the model and not something a theorem can silently assume away.
\<close>

datatype panic = NilDereference | CloseOfClosedChannel | CallMismatch

datatype 'a outcome = Returns 'a | Panics panic | Blocks

section \<open>The functions of Go's strings package that the code calls\<close>

text \<open>
  \<^verbatim>\<open>strings.Split(s, sep)\<close> for a separator of one byte (the code only passes
  \<^verbatim>\<open>"."\<close>): the pieces between the separators, so a string without separator is
  one piece and the empty string is the single piece \<^verbatim>\<open>""\<close>.
\<close>

fun Split :: "string \<Rightarrow> char \<Rightarrow> string list" where
  "Split [] sep = [[]]"
| "Split (c # cs) sep =
     (if c = sep then [] # Split cs sep
      else (case Split cs sep of [] \<Rightarrow> [[c]] | l # ls \<Rightarrow> (c # l) # ls))"

text \<open>\<^verbatim>\<open>strings.Join(elems, sep)\<close>.\<close>

fun Join :: "string list \<Rightarrow> string \<Rightarrow> string" where
  "Join [] sep = []"
| "Join [x] sep = x"
| "Join (x # y # ys) sep = x @ sep @ Join (y # ys) sep"

text \<open>
  \<^verbatim>\<open>strings.ToLower\<close>. On a string whose bytes are all below 128 (ASCII), Go maps
  the letters \<^verbatim>\<open>A\<close> to \<^verbatim>\<open>Z\<close> to \<^verbatim>\<open>a\<close> to \<^verbatim>\<open>z\<close> and leaves every other
  byte. On any other string it returns \<^verbatim>\<open>Map(unicode.ToLower, s)\<close>: the string is
  decoded as UTF-8, every rune goes through the tables of package \<^verbatim>\<open>unicode\<close>, and
  a byte that is not valid UTF-8 becomes the replacement character. Those tables are
  not modelled: what Go returns on a string with a byte of 128 or more is the
  parameter \<open>MapUnicodeToLower\<close>, and a statement about \<open>ToLower\<close> holds whatever
  that function is.
\<close>

definition lower_byte :: "char \<Rightarrow> char" where
  "lower_byte c =
     (case map_of (zip ''ABCDEFGHIJKLMNOPQRSTUVWXYZ'' ''abcdefghijklmnopqrstuvwxyz'') c of
        Some l \<Rightarrow> l
      | None \<Rightarrow> c)"

definition isASCII :: "string \<Rightarrow> bool" where
  "isASCII s = list_all (\<lambda>c. (of_char c :: nat) < 128) s"

definition ToLower :: "(string \<Rightarrow> string) \<Rightarrow> string \<Rightarrow> string" where
  "ToLower MapUnicodeToLower s =
     (if isASCII s then map lower_byte s else MapUnicodeToLower s)"

text \<open>
  Go's \<^verbatim>\<open>int\<close> is a 64-bit two's complement integer on the 64-bit platforms the
  program is built for; \<^verbatim>\<open>times++\<close> wraps around silently. Counts are kept as
  \<^typ>\<open>int\<close> with the wrap-around written out.
\<close>

definition wrap64 :: "int \<Rightarrow> int" where
  "wrap64 x = (x + 2 ^ 63) mod 2 ^ 64 - 2 ^ 63"

section \<open>The request model (package core)\<close>

text \<open>
  Request tag types and the topics used across the program. In the records below, a
  field whose name another record already has carries a prefix: \<open>AnswerName\<close> and
  \<open>AnswerType\<close> are \<^verbatim>\<open>Name\<close> and \<^verbatim>\<open>Type\<close> of a DNS answer, and \<open>OutName\<close>,
  \<open>OutDomain\<close>, \<open>OutTag\<close>, \<open>OutSource\<close> are \<^verbatim>\<open>Name\<close>, \<^verbatim>\<open>Domain\<close>,
  \<^verbatim>\<open>Tag\<close>, \<^verbatim>\<open>Source\<close> of an output record.
\<close>

definition ALT :: string where "ALT = ''alt''"
definition ARCHIVE :: string where "ARCHIVE = ''archive''"
definition API :: string where "API = ''api''"
definition AXFR :: string where "AXFR = ''axfr''"
definition BRUTE :: string where "BRUTE = ''brute''"
definition CERT :: string where "CERT = ''cert''"
definition DNS :: string where "DNS = ''dns''"
definition EXTERNAL :: string where "EXTERNAL = ''ext''"
definition SCRAPE :: string where "SCRAPE = ''scrape''"

definition NewNameTopic :: string where "NewNameTopic = ''amass:newname''"
definition NewSubdomainTopic :: string where "NewSubdomainTopic = ''amass:newsub''"
definition ResolveNameTopic :: string where "ResolveNameTopic = ''amass:resolve''"
definition NameResolvedTopic :: string where "NameResolvedTopic = ''amass:resolved''"
definition OutputTopic :: string where "OutputTopic = ''amass:output''"

record DNSAnswer =
  AnswerName :: string
  AnswerType :: int
  TTL :: int
  Data :: string

record DNSRequest =
  Name :: string
  Domain :: string
  Records :: "DNSAnswer list"
  Tag :: string
  Source :: string

text \<open>
  A \<^verbatim>\<open>time.Time\<close> is kept as the nanoseconds since the zero instant, so the zero
  value of the type is \<open>0\<close>.
\<close>

type_synonym Time = int

record AddressInfo =
  Address :: string
  Netblock :: string
  CIDRStr :: string
  ASN :: int
  Description :: string

record Output =
  Timestamp :: Time
  OutName :: string
  OutDomain :: string
  Addresses :: "AddressInfo list"
  OutTag :: string
  OutSource :: string

text \<open>
  The values handed to the bus as \<^verbatim>\<open>interface{}\<close>: the nil interface, a function
  (known by its identity), a pointer to a request (\<open>None\<close> is the nil pointer; the
  request is carried by content), a pointer to an output record, an integer, a string.
  \<^verbatim>\<open>reflect.ValueOf\<close> only wraps such a value, and the model keeps the value itself.
\<close>

datatype val =
    VNil
  | VFunc nat
  | VDNSRequest "DNSRequest option"
  | VOutput Output
  | VInt int
  | VString string

section \<open>The helpers of package utils\<close>

text \<open>
  Modelled from the spec: \<^verbatim>\<open>utils.StringFilter\<close>, whose source is not part of the
  files at hand. The spec describes it as a deduplication set over strings whose
  \<^verbatim>\<open>Duplicate(x)\<close> is a test-and-insert: it reports whether the string was seen and
  leaves it recorded.
\<close>

type_synonym StringFilter = "string set"

definition NewStringFilter :: StringFilter where
  "NewStringFilter = {}"

definition Duplicate :: "StringFilter \<Rightarrow> string \<Rightarrow> bool \<times> StringFilter" where
  "Duplicate sf s = (s \<in> sf, insert s sf)"

text \<open>
  Modelled from the spec: \<^verbatim>\<open>utils.Queue\<close>, a first-in first-out queue with
  \<^verbatim>\<open>Append\<close> and \<^verbatim>\<open>Next\<close>; \<^verbatim>\<open>Next\<close> reports whether there was an element.
\<close>

definition NewQueue :: "'a list" where
  "NewQueue = []"

definition Append :: "'a list \<Rightarrow> 'a \<Rightarrow> 'a list" where
  "Append q x = q @ [x]"

definition Next :: "'a list \<Rightarrow> ('a \<times> 'a list) option" where
  "Next q = (case q of [] \<Rightarrow> None | x # xs \<Rightarrow> Some (x, xs))"

text \<open>
  Modelled from the spec: \<^verbatim>\<open>utils.Semaphore\<close>, a counting semaphore, kept as the
  number of its free slots. \<^verbatim>\<open>Acquire\<close> takes slots when that many are free and
  waits otherwise (\<open>None\<close>); \<^verbatim>\<open>Release\<close> gives slots back.
\<close>

definition NewSimpleSemaphore :: "nat \<Rightarrow> nat" where
  "NewSimpleSemaphore n = n"

definition Acquire :: "nat \<Rightarrow> nat \<Rightarrow> nat option" where
  "Acquire sem n = (if n \<le> sem then Some (sem - n) else None)"

definition Release :: "nat \<Rightarrow> nat \<Rightarrow> nat" where
  "Release sem n = sem + n"

section \<open>The event bus\<close>

record pubReq =
  Topic :: string
  Args :: "val list"

text \<open>
  The bus: the subscriber lists by topic (a callback is known by the identity of its
  function value), the semaphore \<^verbatim>\<open>max\<close>, the queue of publish requests, and
  whether the channel \<^verbatim>\<open>done\<close> has been closed (nothing is ever sent on it). The
  mutex of the bus makes each access to the subscriber lists one step; the model takes
  such steps one at a time and has no field for it.
\<close>

record EventBus =
  topics :: "string \<rightharpoonup> nat list"
  max_sem :: nat
  queue :: "pubReq list"
  done_chan :: bool

definition NewEventBus :: EventBus where
  "NewEventBus = \<lparr>topics = Map.empty, max_sem = NewSimpleSemaphore 1000000, queue = NewQueue,
     done_chan = False\<rparr>"

text \<open>
  \<^verbatim>\<open>Subscribe\<close>. The test \<^verbatim>\<open>topic == "" || reflect.TypeOf(fn).Kind() != reflect.Func\<close>
  is evaluated left to right: with an empty topic the right side is not evaluated. With
  the nil interface, \<^verbatim>\<open>reflect.TypeOf\<close> yields the nil \<^verbatim>\<open>Type\<close>, and the call of
  \<^verbatim>\<open>Kind\<close> on it is a nil dereference.
\<close>

definition subscribers :: "EventBus \<Rightarrow> string \<Rightarrow> nat list" where
  "subscribers eb topic = (case topics eb topic of None \<Rightarrow> [] | Some cs \<Rightarrow> cs)"

definition Subscribe :: "string \<Rightarrow> val \<Rightarrow> EventBus \<Rightarrow> EventBus outcome" where
  "Subscribe topic fn eb =
     (if topic = [] then Returns eb
      else (case fn of
              VNil \<Rightarrow> Panics NilDereference
            | VFunc callback \<Rightarrow>
                Returns (eb\<lparr>topics := (topics eb)(topic \<mapsto> subscribers eb topic @ [callback])\<rparr>)
            | _ \<Rightarrow> Returns eb))"

definition Unsubscribe :: "string \<Rightarrow> val \<Rightarrow> EventBus \<Rightarrow> EventBus outcome" where
  "Unsubscribe topic fn eb =
     (if topic = [] then Returns eb
      else (case fn of
              VNil \<Rightarrow> Panics NilDereference
            | VFunc callback \<Rightarrow>
                Returns (eb\<lparr>topics :=
                  (topics eb)(topic \<mapsto> filter (\<lambda>c. c \<noteq> callback) (subscribers eb topic))\<rparr>)
            | _ \<Rightarrow> Returns eb))"

definition Publish :: "string \<Rightarrow> val list \<Rightarrow> EventBus \<Rightarrow> EventBus" where
  "Publish topic args eb =
     (if topic = [] then eb
      else eb\<lparr>queue := Append (queue eb) \<lparr>Topic = topic, Args = args\<rparr>\<rparr>)"

text \<open>
  One turn of the loop of \<^verbatim>\<open>processRequests\<close>, from the \<^verbatim>\<open>select\<close> to the next
  \<^verbatim>\<open>select\<close>. A closed \<^verbatim>\<open>done\<close> is always ready, so the loop returns. With an empty
  queue the loop sleeps \<^verbatim>\<open>delays[curIdx]\<close> milliseconds. Otherwise the request is
  taken off the queue, the subscriber list of its topic is read once, and when the
  topic is known a slot is acquired and a goroutine is started on that list and the
  arguments of the request: the task. \<^verbatim>\<open>Acquire\<close> waits while no slot is free.
\<close>

definition maxIdx :: nat where "maxIdx = 7"

definition delays :: "nat list" where
  "delays = [10, 25, 50, 75, 100, 150, 250, 500]"

type_synonym task = "nat list \<times> val list"

datatype bus_turn =
    LoopReturns
  | LoopSleeps nat nat
  | LoopAcquireWaits
  | LoopContinues EventBus nat "task option"

definition processRequests_turn :: "EventBus \<Rightarrow> nat \<Rightarrow> bus_turn" where
  "processRequests_turn eb curIdx =
     (if done_chan eb then LoopReturns
      else (case Next (queue eb) of
              None \<Rightarrow>
                (let i = (if curIdx < maxIdx then curIdx + 1 else curIdx)
                 in LoopSleeps i (delays ! i))
            | Some (p, q) \<Rightarrow>
                (case topics eb (Topic p) of
                   None \<Rightarrow> LoopContinues (eb\<lparr>queue := q\<rparr>) 0 None
                 | Some callbacks \<Rightarrow>
                     (case Acquire (max_sem eb) 1 of
                        None \<Rightarrow> LoopAcquireWaits
                      | Some sem \<Rightarrow>
                          LoopContinues (eb\<lparr>queue := q, max_sem := sem\<rparr>) 0
                            (Some (callbacks, Args p))))))"

text \<open>
  \<^verbatim>\<open>executeCallbacks\<close> calls the callbacks of the list one after the other, in one
  goroutine. What \<^verbatim>\<open>cb.Call(args)\<close> does depends on the function behind the
  callback, which the bus does not know: it is the parameter \<open>Call\<close>. The call
  returns; or it panics, before the function is entered when the arguments do not fit
  its signature (\<open>CallMismatch\<close>), or in the body of the function; or it never
  returns, as a handler does that waits on a channel nobody serves. Nothing recovers
  from a panic, and a call that does not return holds the loop: in both cases the
  callbacks further down the list are not called. The result lists the calls whose
  function was entered, each with its arguments, and says how the goroutine ended.
  The deferred \<^verbatim>\<open>Release\<close> runs when the function returns or panics, not while it
  is held.
\<close>

fun call_each :: "(nat \<Rightarrow> val list \<Rightarrow> unit outcome) \<Rightarrow> nat list \<Rightarrow> val list
    \<Rightarrow> (nat \<times> val list) list \<times> unit outcome" where
  "call_each Call [] args = ([], Returns ())"
| "call_each Call (cb # cbs) args =
     (case Call cb args of
        Returns u \<Rightarrow>
          (case call_each Call cbs args of (calls, r) \<Rightarrow> ((cb, args) # calls, r))
      | Panics e \<Rightarrow> (if e = CallMismatch then [] else [(cb, args)], Panics e)
      | Blocks \<Rightarrow> ([(cb, args)], Blocks))"

definition executeCallbacks :: "(nat \<Rightarrow> val list \<Rightarrow> unit outcome) \<Rightarrow> EventBus \<Rightarrow> nat list
    \<Rightarrow> val list \<Rightarrow> EventBus \<times> (nat \<times> val list) list \<times> unit outcome" where
  "executeCallbacks Call eb callbacks args =
     (case call_each Call callbacks args of
        (calls, r) \<Rightarrow>
          (if r = Blocks then eb else eb\<lparr>max_sem := Release (max_sem eb) 1\<rparr>, calls, r))"

text \<open>\<^verbatim>\<open>Stop\<close> closes \<^verbatim>\<open>done\<close>; closing a closed channel panics.\<close>

definition Stop :: "EventBus \<Rightarrow> EventBus outcome" where
  "Stop eb =
     (if done_chan eb then Panics CloseOfClosedChannel
      else Returns (eb\<lparr>done_chan := True\<rparr>))"

section \<open>The name service\<close>

text \<open>
  Of \<^verbatim>\<open>core.Config\<close> the name service reads the flag \<^verbatim>\<open>Passive\<close>, the
  \<^verbatim>\<open>UUID\<close> and the scope test \<^verbatim>\<open>IsDomainInScope\<close>. The source of the
  configuration is not part of the files at hand; the scope test is a field here.
\<close>

record Config =
  Passive :: bool
  UUID :: string
  IsDomainInScope :: "string \<Rightarrow> bool"

text \<open>
  The graph collaborator (\<^verbatim>\<open>handlers.DataHandler\<close>) is used through one query,
  \<^verbatim>\<open>IsCNAMENode\<close>, on the parameters below.
\<close>

record DataOptsParams =
  ParamUUID :: string
  ParamName :: string
  ParamDomain :: string

type_synonym DataHandler = "DataOptsParams \<Rightarrow> bool"

definition IsCNAMENode :: "DataHandler \<Rightarrow> DataOptsParams \<Rightarrow> bool" where
  "IsCNAMENode g params = g params"

record timesRequest =
  Subdomain :: string
  Times :: nat

text \<open>
  The local variables of the goroutine \<^verbatim>\<open>processTimesRequests\<close>, which owns the
  map of observation counts.
\<close>

record TimesLoop =
  curIdx :: nat
  subdomains :: "string \<rightharpoonup> int"

definition NewTimesLoop :: TimesLoop where
  "NewTimesLoop = \<lparr>curIdx = 0, subdomains = Map.empty\<rparr>"

text \<open>
  The name service. From the embedded \<^verbatim>\<open>BaseService\<close> come the configuration, the
  time of the last \<^verbatim>\<open>SetActive\<close>, whether the quit channel is closed, and the inbox
  of DNS requests. The regular expression \<^verbatim>\<open>sanityRE\<close> is known by what
  \<^verbatim>\<open>MatchString\<close> answers. \<open>graph_ns\<close> is \<open>None\<close> while the handle is nil.
  \<open>graph_calls\<close> is not a field of the program: it lists the queries made to the
  graph, so that making none can be stated. \<open>times_loop\<close> holds the local variables
  of the counting goroutine. The queue \<^verbatim>\<open>times\<close> is written by
  \<^verbatim>\<open>timesForSubdomain\<close> alone, which waits until its request is served: in a run
  that makes one call after the other the queue is empty between the calls, and the
  record does not carry it.
\<close>

record NameService =
  config :: Config
  active :: Time
  quit :: bool
  dnsrequests :: "DNSRequest list"
  filter_ns :: StringFilter
  sanityRE :: "string \<Rightarrow> bool"
  trustedNameFilter :: StringFilter
  otherNameFilter :: StringFilter
  graph_ns :: "DataHandler option"
  graph_calls :: "DataOptsParams list"
  times_loop :: TimesLoop

text \<open>
  \<^verbatim>\<open>NewNameService\<close>; the expression of \<^verbatim>\<open>utils.AnySubdomainRegex()\<close> is a parameter.
\<close>

definition NewNameService :: "Config \<Rightarrow> (string \<Rightarrow> bool) \<Rightarrow> NameService" where
  "NewNameService cfg re =
     \<lparr>config = cfg, active = 0, quit = False, dnsrequests = [],
      filter_ns = NewStringFilter, sanityRE = re,
      trustedNameFilter = NewStringFilter, otherNameFilter = NewStringFilter,
      graph_ns = None, graph_calls = [], times_loop = NewTimesLoop\<rparr>"

definition RegisterGraph :: "DataHandler option \<Rightarrow> NameService \<Rightarrow> NameService" where
  "RegisterGraph g ns = ns\<lparr>graph_ns := g\<rparr>"

text \<open>
  Modelled from the spec: \<^verbatim>\<open>BaseService.SetActive\<close> records the time of the call,
  and \<^verbatim>\<open>BaseService.SendDNSRequest\<close> pushes the request into the inbox of the
  service. The spec leaves open what a full inbox does; the inbox has no bound here.
\<close>

definition SetActive :: "Time \<Rightarrow> NameService \<Rightarrow> NameService" where
  "SetActive now ns = ns\<lparr>active := now\<rparr>"

definition SendDNSRequest :: "NameService \<Rightarrow> DNSRequest \<Rightarrow> NameService" where
  "SendDNSRequest ns req = ns\<lparr>dnsrequests := dnsrequests ns @ [req]\<rparr>"

text \<open>
  \<^verbatim>\<open>newNameEvent\<close>. The request arrives as a pointer, and the two assignments write
  through it: the result carries, next to the service, the request as it stands when
  the handler returns. \<^verbatim>\<open>TrustedTag\<close> and \<^verbatim>\<open>utils.RemoveAsteriskLabel\<close> are not
  among the files at hand and are parameters, and so is what \<^verbatim>\<open>strings.ToLower\<close>
  does off ASCII. A filter is only consulted when the left side of its \<^verbatim>\<open>&&\<close>
  holds.
\<close>

definition newNameEvent :: "(string \<Rightarrow> bool) \<Rightarrow> (string \<Rightarrow> string) \<Rightarrow> (string \<Rightarrow> string)
    \<Rightarrow> NameService \<Rightarrow> DNSRequest option \<Rightarrow> NameService \<times> DNSRequest option" where
  "newNameEvent TrustedTag RemoveAsteriskLabel MapUnicodeToLower ns reqp =
     (case reqp of
        None \<Rightarrow> (ns, None)
      | Some req0 \<Rightarrow>
          if Name req0 = [] \<or> Domain req0 = [] then (ns, Some req0)
          else
            (let req1 = req0\<lparr>Name :=
                          ToLower MapUnicodeToLower (RemoveAsteriskLabel (Name req0))\<rparr>;
                 req = req1\<lparr>Domain := ToLower MapUnicodeToLower (Domain req1)\<rparr>;
                 tt = TrustedTag (Tag req)
             in if \<not> tt
                then (case Duplicate (otherNameFilter ns) (Name req) of
                        (dup, sf) \<Rightarrow>
                          if dup then (ns\<lparr>otherNameFilter := sf\<rparr>, Some req)
                          else (SendDNSRequest (ns\<lparr>otherNameFilter := sf\<rparr>) req, Some req))
                else (case Duplicate (trustedNameFilter ns) (Name req) of
                        (dup, sf) \<Rightarrow>
                          if dup then (ns\<lparr>trustedNameFilter := sf\<rparr>, Some req)
                          else (SendDNSRequest (ns\<lparr>trustedNameFilter := sf\<rparr>) req, Some req))))"

text \<open>
  \<^verbatim>\<open>performRequest\<close>. In passive mode the fields of the request are read, which
  dereferences the pointer; \<^verbatim>\<open>Duplicate\<close> is called before the expression is
  matched, so the name is recorded in both cases. The output record is built from four
  fields; \<^verbatim>\<open>Timestamp\<close> and \<^verbatim>\<open>Addresses\<close> keep their zero values.
\<close>

definition performRequest :: "Time \<Rightarrow> NameService \<Rightarrow> EventBus \<Rightarrow> DNSRequest option
    \<Rightarrow> (NameService \<times> EventBus) outcome" where
  "performRequest now ns0 eb reqp =
     (let ns = SetActive now ns0
      in if Passive (config ns)
         then (case reqp of
                 None \<Rightarrow> Panics NilDereference
               | Some req \<Rightarrow>
                   (case Duplicate (filter_ns ns) (Name req) of
                      (dup, sf) \<Rightarrow>
                        if \<not> dup \<and> sanityRE ns (Name req)
                        then Returns (ns\<lparr>filter_ns := sf\<rparr>,
                               Publish OutputTopic
                                 [VOutput \<lparr>Timestamp = 0, OutName = Name req,
                                    OutDomain = Domain req, Addresses = [],
                                    OutTag = Tag req, OutSource = Source req\<rparr>] eb)
                        else Returns (ns\<lparr>filter_ns := sf\<rparr>, eb)))
         else Returns (ns, Publish ResolveNameTopic [VDNSRequest reqp] eb))"

text \<open>
  \<^verbatim>\<open>processTimesRequests\<close>, run on the requests that are in the queue, up to the
  first time it finds the queue empty (from then on it only sleeps until a request is
  appended). With the quit channel closed it returns at once. For each request it
  answers on the channel of the request; the second component lists the answers in
  the order they are sent, each with the channel it goes to.
\<close>

definition times_maxIdx :: nat where "times_maxIdx = 9"

fun processTimesRequests :: "bool \<Rightarrow> TimesLoop \<Rightarrow> timesRequest list
    \<Rightarrow> TimesLoop \<times> (nat \<times> int) list" where
  "processTimesRequests True l q = (l, [])"
| "processTimesRequests False l [] =
     (l\<lparr>curIdx := (if curIdx l < times_maxIdx then curIdx l + 1 else curIdx l)\<rparr>, [])"
| "processTimesRequests False l (req # q) =
     (let times = (case subdomains l (Subdomain req) of
                     Some t \<Rightarrow> wrap64 (t + 1)
                   | None \<Rightarrow> 1);
          l' = l\<lparr>curIdx := 0, subdomains := (subdomains l)(Subdomain req \<mapsto> times)\<rparr>
      in (case processTimesRequests False l' q of
            (l'', answers) \<Rightarrow> (l'', (Times req, times) # answers)))"

text \<open>
  \<^verbatim>\<open>timesForSubdomain\<close> appends a request with a fresh channel and waits for the
  answer on it. The caller goes on when the counting goroutine has answered; when that
  goroutine has returned (the quit channel is closed), no answer comes.
\<close>

definition timesForSubdomain :: "NameService \<Rightarrow> string \<Rightarrow> (NameService \<times> int) outcome" where
  "timesForSubdomain ns sub =
     (case processTimesRequests (quit ns) (times_loop ns)
             (Append NewQueue \<lparr>Subdomain = sub, Times = 0\<rparr>) of
        (l, []) \<Rightarrow> Blocks
      | (l, (c, t) # rest) \<Rightarrow> Returns (ns\<lparr>times_loop := l\<rparr>, t))"

text \<open>
  \<^verbatim>\<open>checkSubdomain\<close>. The request is not nil here: the caller has read its name.
  \<^verbatim>\<open>labels[1]\<close> exists because there are at least two labels. The arguments of
  \<^verbatim>\<open>Publish\<close> are evaluated before the call, so the count is asked for first.
\<close>

definition checkSubdomain :: "NameService \<Rightarrow> EventBus \<Rightarrow> DNSRequest
    \<Rightarrow> (NameService \<times> EventBus) outcome" where
  "checkSubdomain ns eb req =
     (let labels = Split (Name req) CHR ''.'';
          num = length labels
      in if num < 2 then Returns (ns, eb)
         else if int num - 1 < int (length (Split (Domain req) CHR ''.'')) then Returns (ns, eb)
         else if labels ! 1 = ''_tcp'' \<or> labels ! 1 = ''_udp'' \<or> labels ! 1 = ''_tls''
         then Returns (ns, eb)
         else
           (let sub = Join (drop 1 labels) ''.'';
                params = \<lparr>ParamUUID = UUID (config ns), ParamName = sub,
                          ParamDomain = Domain req\<rparr>;
                (cname, ns1) =
                  (case graph_ns ns of
                     None \<Rightarrow> (False, ns)
                   | Some g \<Rightarrow>
                       (IsCNAMENode g params, ns\<lparr>graph_calls := graph_calls ns @ [params]\<rparr>))
            in if cname then Returns (ns1, eb)
               else (case timesForSubdomain ns1 sub of
                       Returns (ns2, t) \<Rightarrow>
                         Returns (ns2,
                           Publish NewSubdomainTopic
                             [VDNSRequest (Some \<lparr>Name = sub, Domain = Domain req, Records = [],
                                 Tag = Tag req, Source = Source req\<rparr>),
                              VInt t] eb)
                     | Panics e \<Rightarrow> Panics e
                     | Blocks \<Rightarrow> Blocks)))"

text \<open>\<^verbatim>\<open>Resolved\<close>, the handler of the resolved names.\<close>

definition Resolved :: "Time \<Rightarrow> NameService \<Rightarrow> EventBus \<Rightarrow> DNSRequest option
    \<Rightarrow> (NameService \<times> EventBus) outcome" where
  "Resolved now ns0 eb reqp =
     (let ns = SetActive now ns0
      in (case reqp of
            None \<Rightarrow> Panics NilDereference
          | Some req \<Rightarrow>
              if IsDomainInScope (config ns) (Name req) then checkSubdomain ns eb req
              else Returns (ns, eb)))"

section \<open>Observing a run, and the values the examples use\<close>

text \<open>
  What a call has published: the requests that \<open>eb'\<close> holds at the end of the queue
  beyond those of \<open>eb\<close>; and the requests of a list that are on a given topic.
\<close>

definition published :: "EventBus \<Rightarrow> EventBus \<Rightarrow> pubReq list" where
  "published eb eb' = drop (length (queue eb)) (queue eb')"

definition on_topic :: "string \<Rightarrow> pubReq list \<Rightarrow> pubReq list" where
  "on_topic t ps = filter (\<lambda>p. Topic p = t) ps"

text \<open>The output record that \<^verbatim>\<open>performRequest\<close> builds from a request.\<close>

definition output_of :: "DNSRequest \<Rightarrow> Output" where
  "output_of req = \<lparr>Timestamp = 0, OutName = Name req, OutDomain = Domain req, Addresses = [],
     OutTag = Tag req, OutSource = Source req\<rparr>"

text \<open>Two configurations, one passive and one not, with every name in scope.\<close>

definition passive_config :: Config where
  "passive_config = \<lparr>Passive = True, UUID = ''uuid'', IsDomainInScope = (\<lambda>name. True)\<rparr>"

definition active_config :: Config where
  "active_config = \<lparr>Passive = False, UUID = ''uuid'', IsDomainInScope = (\<lambda>name. True)\<rparr>"

text \<open>
  Modelled from the spec: the expression of \<^verbatim>\<open>utils.AnySubdomainRegex()\<close>, which the
  spec calls a generic subdomain-label syntax check. The examples only need some such
  test; this one asks for a dot in the name.
\<close>

definition example_sanityRE :: "string \<Rightarrow> bool" where
  "example_sanityRE name = (CHR ''.'' \<in> set name)"

definition example_request :: DNSRequest where
  "example_request = \<lparr>Name = ''x.example.com'', Domain = ''example.com'', Records = [],
     Tag = SCRAPE, Source = ''Baidu''\<rparr>"

definition passive_service :: NameService where
  "passive_service = NewNameService passive_config example_sanityRE"

definition active_service :: NameService where
  "active_service = NewNameService active_config example_sanityRE"

text \<open>
  Three answers to what a call does. In the first every call returns. In the second
  the function behind callback 1 has one parameter, as the handlers of the name
  service have, and a call of it with another number of arguments panics before the
  function is entered; every other call returns. In the third callback 1 never
  returns, as \<^verbatim>\<open>Resolved\<close> does on a name service that has quit; every other call
  returns.
\<close>

definition every_call_returns :: "nat \<Rightarrow> val list \<Rightarrow> unit outcome" where
  "every_call_returns cb args = Returns ()"

definition first_is_unary :: "nat \<Rightarrow> val list \<Rightarrow> unit outcome" where
  "first_is_unary cb args =
     (if cb = 1 \<and> length args \<noteq> 1 then Panics CallMismatch else Returns ())"

definition first_never_returns :: "nat \<Rightarrow> val list \<Rightarrow> unit outcome" where
  "first_never_returns cb args = (if cb = 1 then Blocks else Returns ())"

text \<open>
  Two buses with one request in the queue. On the first, callback 1 was subscribed
  twice and callback 2 once to the topic of new names, and a request was published. On
  the second, callbacks 1 and 2 were subscribed and the topic was published without
  arguments.
\<close>

definition example_bus :: EventBus where
  "example_bus = \<lparr>topics = [NewNameTopic \<mapsto> [1, 1, 2]], max_sem = 1000000,
     queue = [\<lparr>Topic = NewNameTopic, Args = [VDNSRequest (Some example_request)]\<rparr>],
     done_chan = False\<rparr>"

definition mismatch_bus :: EventBus where
  "mismatch_bus = \<lparr>topics = [NewNameTopic \<mapsto> [1, 2]], max_sem = 1000000,
     queue = [\<lparr>Topic = NewNameTopic, Args = []\<rparr>], done_chan = False\<rparr>"

text \<open>
  Modelled from the spec: \<^verbatim>\<open>TrustedTag\<close>, whose source is not part of the files at
  hand. The spec names certificate extraction and zone transfer as trusted provenance
  and scraping as not trusted. It stands for the parameter in the examples only.
\<close>

definition TrustedTag_spec :: "string \<Rightarrow> bool" where
  "TrustedTag_spec tag = (tag = CERT \<or> tag = AXFR)"

text \<open>
  Modelled from the spec: \<^verbatim>\<open>utils.RemoveAsteriskLabel\<close>, whose source is not part of
  the files at hand. The spec says that a leading wildcard label is stripped. It
  stands for the parameter in the examples only.
\<close>

definition RemoveAsteriskLabel_spec :: "string \<Rightarrow> string" where
  "RemoveAsteriskLabel_spec s =
     (case Split s CHR ''.'' of
        l # l' # ls \<Rightarrow> if l = ''*'' then Join (l' # ls) ''.'' else s
      | _ \<Rightarrow> s)"

text \<open>
  The examples are all ASCII and never reach the path of \<^verbatim>\<open>strings.ToLower\<close> for
  other strings; where a value for that parameter must be written, it is this one.
\<close>

definition no_unicode :: "string \<Rightarrow> string" where
  "no_unicode s = s"

text \<open>
  A request gets past the first test of \<^verbatim>\<open>newNameEvent\<close> when its name and domain
  are not empty; \<open>normalized\<close> is the request after the two assignments; \<open>sent\<close> are
  the requests a call has pushed into the inbox. \<open>newNameEvents\<close> hands a list of
  requests to the handler, one call after the other. A request was \<open>seen_before\<close>
  in such a list when the list holds a request that got past the first test, is of the
  same trust class and has the same name after the assignments.
\<close>

definition accepted :: "DNSRequest \<Rightarrow> bool" where
  "accepted req = (Name req \<noteq> [] \<and> Domain req \<noteq> [])"

definition normalized :: "(string \<Rightarrow> string) \<Rightarrow> (string \<Rightarrow> string) \<Rightarrow> DNSRequest
    \<Rightarrow> DNSRequest" where
  "normalized RemoveAsteriskLabel MapUnicodeToLower req =
     req\<lparr>Name := ToLower MapUnicodeToLower (RemoveAsteriskLabel (Name req)),
         Domain := ToLower MapUnicodeToLower (Domain req)\<rparr>"

definition sent :: "NameService \<Rightarrow> NameService \<Rightarrow> DNSRequest list" where
  "sent ns ns' = drop (length (dnsrequests ns)) (dnsrequests ns')"

fun newNameEvents :: "(string \<Rightarrow> bool) \<Rightarrow> (string \<Rightarrow> string) \<Rightarrow> (string \<Rightarrow> string)
    \<Rightarrow> NameService \<Rightarrow> DNSRequest option list \<Rightarrow> NameService" where
  "newNameEvents TrustedTag RemoveAsteriskLabel MapUnicodeToLower ns [] = ns"
| "newNameEvents TrustedTag RemoveAsteriskLabel MapUnicodeToLower ns (reqp # reqps) =
     newNameEvents TrustedTag RemoveAsteriskLabel MapUnicodeToLower
       (fst (newNameEvent TrustedTag RemoveAsteriskLabel MapUnicodeToLower ns reqp)) reqps"

definition seen_before :: "(string \<Rightarrow> bool) \<Rightarrow> (string \<Rightarrow> string) \<Rightarrow> (string \<Rightarrow> string)
    \<Rightarrow> DNSRequest option list \<Rightarrow> DNSRequest \<Rightarrow> bool" where
  "seen_before TrustedTag RemoveAsteriskLabel MapUnicodeToLower reqps req =
     (\<exists>r. Some r \<in> set reqps \<and> accepted r
          \<and> TrustedTag (Tag r) = TrustedTag (Tag req)
          \<and> Name (normalized RemoveAsteriskLabel MapUnicodeToLower r)
              = Name (normalized RemoveAsteriskLabel MapUnicodeToLower req))"

text \<open>The requests of the examples about \<^verbatim>\<open>newNameEvent\<close>.\<close>

definition mixed_case_request :: DNSRequest where
  "mixed_case_request = \<lparr>Name = ''WWW.Example.com'', Domain = ''Example.COM'', Records = [],
     Tag = CERT, Source = ''Active Cert''\<rparr>"

definition wildcard_request :: DNSRequest where
  "wildcard_request = \<lparr>Name = ''*.Example.com'', Domain = ''example.com'', Records = [],
     Tag = CERT, Source = ''Active Cert''\<rparr>"

definition cert_request :: DNSRequest where
  "cert_request = \<lparr>Name = ''a.example.com'', Domain = ''example.com'', Records = [],
     Tag = CERT, Source = ''Active Cert''\<rparr>"

definition scrape_request :: DNSRequest where
  "scrape_request = \<lparr>Name = ''a.example.com'', Domain = ''example.com'', Records = [],
     Tag = SCRAPE, Source = ''Baidu''\<rparr>"

definition upper_cert_request :: DNSRequest where
  "upper_cert_request = \<lparr>Name = ''A.example.com'', Domain = ''example.com'', Records = [],
     Tag = CERT, Source = ''Active Cert''\<rparr>"

definition no_domain_request :: DNSRequest where
  "no_domain_request = \<lparr>Name = ''a.example.com'', Domain = [], Records = [],
     Tag = CERT, Source = ''Active Cert''\<rparr>"

text \<open>
  The tests of \<^verbatim>\<open>checkSubdomain\<close> on the labels, the subdomain it derives, the
  count that the counting goroutine answers next for a subdomain, the request that a
  promotion publishes, and what the graph, if there is one, must answer for the
  promotion to go on. \<open>stopped_service\<close> is a name service after its quit channel
  was closed.
\<close>

definition passes_checks :: "DNSRequest \<Rightarrow> bool" where
  "passes_checks req =
     (let labels = Split (Name req) CHR ''.''
      in 2 \<le> length labels
         \<and> length (Split (Domain req) CHR ''.'') \<le> length labels - 1
         \<and> labels ! 1 \<noteq> ''_tcp'' \<and> labels ! 1 \<noteq> ''_udp'' \<and> labels ! 1 \<noteq> ''_tls'')"

definition candidate :: "DNSRequest \<Rightarrow> string" where
  "candidate req = Join (drop 1 (Split (Name req) CHR ''.'')) ''.''"

definition times_after :: "TimesLoop \<Rightarrow> string \<Rightarrow> int" where
  "times_after l s = (case subdomains l s of Some t \<Rightarrow> wrap64 (t + 1) | None \<Rightarrow> 1)"

definition next_count :: "NameService \<Rightarrow> string \<Rightarrow> int" where
  "next_count ns sub = times_after (times_loop ns) sub"

definition promotion :: "DNSRequest \<Rightarrow> string \<Rightarrow> int \<Rightarrow> pubReq" where
  "promotion req sub t =
     \<lparr>Topic = NewSubdomainTopic,
      Args = [VDNSRequest (Some \<lparr>Name = sub, Domain = Domain req, Records = [],
                Tag = Tag req, Source = Source req\<rparr>), VInt t]\<rparr>"

definition not_alias :: "NameService \<Rightarrow> string \<Rightarrow> string \<Rightarrow> bool" where
  "not_alias ns sub domain =
     (case graph_ns ns of
        None \<Rightarrow> True
      | Some g \<Rightarrow> \<not> IsCNAMENode g \<lparr>ParamUUID = UUID (config ns), ParamName = sub,
                     ParamDomain = domain\<rparr>)"

definition stopped_service :: NameService where
  "stopped_service = active_service\<lparr>quit := True\<rparr>"

definition resolved_www :: DNSRequest where
  "resolved_www = \<lparr>Name = ''www.foo.example.com'', Domain = ''example.com'', Records = [],
     Tag = DNS, Source = ''DNS''\<rparr>"

definition resolved_tcp :: DNSRequest where
  "resolved_tcp = \<lparr>Name = ''_tcp.example.com'', Domain = ''example.com'', Records = [],
     Tag = DNS, Source = ''DNS''\<rparr>"

text \<open>
  The counting goroutine after it has served one request; the counts it has answered
  for one subdomain, in the order of the answers; how many requests of a queue are for
  a subdomain; and the count a subdomain stands at.
\<close>

definition served :: "TimesLoop \<Rightarrow> timesRequest \<Rightarrow> TimesLoop" where
  "served l r =
     l\<lparr>curIdx := 0, subdomains := (subdomains l)(Subdomain r \<mapsto> times_after l (Subdomain r))\<rparr>"





section \<open>Properties of the event bus\<close>

lemma published_append [simp]: "published eb (eb\<lparr>queue := queue eb @ ps\<rparr>) = ps"
  by (simp add: published_def)

lemma published_same [simp]: "published eb eb = []"
  by (simp add: published_def)

lemma Publish_queue:
  "topic \<noteq> [] \<Longrightarrow>
   Publish topic args eb = eb\<lparr>queue := queue eb @ [\<lparr>Topic = topic, Args = args\<rparr>]\<rparr>"
  by (simp add: Publish_def Append_def)

text \<open>
  What does hold of the guards of the bus: with an empty topic \<^verbatim>\<open>Subscribe\<close> and
  \<^verbatim>\<open>Publish\<close> return and change nothing, whatever the other argument is, and so
  does \<^verbatim>\<open>Subscribe\<close> with a value that is neither nil nor a function.
\<close>

lemma Subscribe_empty_topic: "Subscribe [] fn eb = Returns eb"
  by (simp add: Subscribe_def)

lemma Subscribe_not_func:
  "fn \<noteq> VNil \<Longrightarrow> (\<forall>c. fn \<noteq> VFunc c) \<Longrightarrow> Subscribe topic fn eb = Returns eb"
  by (cases fn) (simp_all add: Subscribe_def)

lemma Publish_empty_topic: "Publish [] args eb = eb"
  by (simp add: Publish_def)

text \<open>
  Claim C7 says that misuse of the bus is a silent no-op that never crashes, and names
  \<^verbatim>\<open>Subscribe\<close> with a callback that cannot be invoked. The nil interface is such a
  callback, and with a topic that is not empty the guard of \<^verbatim>\<open>Subscribe\<close> itself
  panics on it: the type of nil is the nil \<^verbatim>\<open>Type\<close>, and \<^verbatim>\<open>Kind\<close> is called on it.
\<close>

theorem Subscribe_nil_panics:
  "Subscribe NewNameTopic VNil NewEventBus = Panics NilDereference"
  by (simp add: Subscribe_def NewNameTopic_def)

text \<open>
  Claim C10: \<^verbatim>\<open>Stop\<close> is not idempotent. On a bus whose channel \<^verbatim>\<open>done\<close> is open,
  the first call returns with the channel closed, the loop of the bus returns at its
  next turn whatever its backoff index is, and a second call panics with the close of
  a closed channel.
\<close>

theorem Stop_twice_panics:
  assumes "\<not> done_chan eb"
  shows "Stop eb = Returns (eb\<lparr>done_chan := True\<rparr>)
       \<and> processRequests_turn (eb\<lparr>done_chan := True\<rparr>) i = LoopReturns
       \<and> Stop (eb\<lparr>done_chan := True\<rparr>) = Panics CloseOfClosedChannel"
  using assms by (simp add: Stop_def processRequests_turn_def)

theorem Stop_twice_panics_witness:
  "\<not> done_chan NewEventBus
   \<and> Stop NewEventBus = Returns (NewEventBus\<lparr>done_chan := True\<rparr>)
   \<and> processRequests_turn (NewEventBus\<lparr>done_chan := True\<rparr>) 0 = LoopReturns
   \<and> Stop (NewEventBus\<lparr>done_chan := True\<rparr>) = Panics CloseOfClosedChannel"
proof -
  have open_chan: "\<not> done_chan NewEventBus"
    by (simp add: NewEventBus_def)
  from Stop_twice_panics [OF open_chan, of 0] open_chan show ?thesis
    by simp
qed

lemma call_each_all_return:
  "\<forall>cb \<in> set cbs. Call cb args = Returns () \<Longrightarrow>
   call_each Call cbs args = (map (\<lambda>cb. (cb, args)) cbs, Returns ())"
  by (induction cbs) simp_all

text \<open>
  The loop goes no further than the first call that does not return: the calls made
  are of callbacks up to that one.
\<close>

lemma call_each_stops:
  "Call cb args \<noteq> Returns () \<Longrightarrow>
   set (fst (call_each Call (before @ cb # later) args))
     \<subseteq> (\<lambda>c. (c, args)) ` (set before \<union> {cb})"
  by (induction before) (auto split: outcome.splits prod.splits)

lemma processRequests_turn_task:
  assumes "processRequests_turn eb i = LoopContinues eb' j (Some (callbacks, args))"
  shows "\<exists>p q. queue eb = p # q \<and> queue eb' = q \<and> args = Args p
           \<and> topics eb (Topic p) = Some callbacks \<and> topics eb' = topics eb"
  using assms
  by (auto simp add: processRequests_turn_def Next_def Let_def
      split: if_splits list.splits option.splits)

lemma Subscribe_func_subscribers:
  "topic \<noteq> [] \<Longrightarrow> Subscribe topic (VFunc cb) eb = Returns eb'
   \<Longrightarrow> subscribers eb' topic = subscribers eb topic @ [cb]"
  by (auto simp add: Subscribe_def subscribers_def)

text \<open>The first example bus is what three subscriptions and a publication make.\<close>

lemma example_bus_reached:
  "Subscribe NewNameTopic (VFunc 1) NewEventBus = Returns b1
   \<Longrightarrow> Subscribe NewNameTopic (VFunc 1) b1 = Returns b2
   \<Longrightarrow> Subscribe NewNameTopic (VFunc 2) b2 = Returns b3
   \<Longrightarrow> Publish NewNameTopic [VDNSRequest (Some example_request)] b3 = example_bus"
  by (auto simp add: Subscribe_def Publish_def NewEventBus_def NewNameTopic_def
      subscribers_def example_bus_def Append_def NewQueue_def NewSimpleSemaphore_def)

text \<open>
  Claim C2, as amended: when a turn of the loop dispatches a request, the task holds
  the subscriber list of the topic of the request as it is at that moment and the
  arguments of the request; and provided that the call of every callback of that list
  with these arguments returns (it neither panics nor waits for ever), the task calls
  every registration of the list exactly once, in the order of the list, with exactly
  these arguments, so that a callback is called as many times as it is registered. A
  callback that is not in the list and subscribes to the topic after the turn is in
  the subscriber list from then on, and is not called by the task.
\<close>

theorem dispatch_calls_each_registration_once:
  assumes turn: "processRequests_turn eb i = LoopContinues eb' j (Some (callbacks, args))"
      and ok: "\<forall>cb \<in> set callbacks. Call cb args = Returns ()"
  shows "\<exists>p q. queue eb = p # q \<and> queue eb' = q \<and> args = Args p
           \<and> topics eb (Topic p) = Some callbacks
           \<and> snd (executeCallbacks Call eb' callbacks args)
               = (map (\<lambda>cb. (cb, args)) callbacks, Returns ())
           \<and> (\<forall>cb. count_list (map fst (fst (snd (executeCallbacks Call eb' callbacks args)))) cb
                  = count_list callbacks cb)
           \<and> (\<forall>cb late. cb \<notin> set callbacks \<and> Topic p \<noteq> []
                  \<and> Subscribe (Topic p) (VFunc cb) eb' = Returns late
                \<longrightarrow> cb \<in> set (subscribers late (Topic p))
                  \<and> cb \<notin> fst ` set (fst (snd (executeCallbacks Call late callbacks args))))"
proof -
  from processRequests_turn_task [OF turn] obtain p q
    where q: "queue eb = p # q" "queue eb' = q" "args = Args p"
      and t: "topics eb (Topic p) = Some callbacks"
    by blast
  have calls: "\<And>b. snd (executeCallbacks Call b callbacks args)
      = (map (\<lambda>cb. (cb, args)) callbacks, Returns ())"
    using ok by (simp add: executeCallbacks_def call_each_all_return)
  have fsts: "map fst (map (\<lambda>cb. (cb, args)) callbacks) = callbacks"
    by (simp add: comp_def)
  have late: "cb \<in> set (subscribers late (Topic p))
      \<and> cb \<notin> fst ` set (fst (snd (executeCallbacks Call late callbacks args)))"
    if "cb \<notin> set callbacks" "Topic p \<noteq> []"
       "Subscribe (Topic p) (VFunc cb) eb' = Returns late" for cb late
    using that by (simp add: calls Subscribe_func_subscribers image_image)
  from q t calls fsts late show ?thesis
    by (intro exI [of _ p] exI [of _ q]) (simp add: image_image)
qed

theorem dispatch_calls_each_registration_once_witness:
  "processRequests_turn example_bus 0
     = LoopContinues (example_bus\<lparr>queue := [], max_sem := 999999\<rparr>) 0
         (Some ([1, 1, 2], [VDNSRequest (Some example_request)]))
   \<and> snd (executeCallbacks every_call_returns (example_bus\<lparr>queue := [], max_sem := 999999\<rparr>)
            [1, 1, 2] [VDNSRequest (Some example_request)])
       = ([(1, [VDNSRequest (Some example_request)]), (1, [VDNSRequest (Some example_request)]),
           (2, [VDNSRequest (Some example_request)])], Returns ())
   \<and> Subscribe NewNameTopic (VFunc 3) (example_bus\<lparr>queue := [], max_sem := 999999\<rparr>)
       = Returns (example_bus\<lparr>queue := [], max_sem := 999999,
                    topics := [NewNameTopic \<mapsto> [1, 1, 2, 3]]\<rparr>)
   \<and> 3 \<in> set (subscribers (example_bus\<lparr>queue := [], max_sem := 999999,
                    topics := [NewNameTopic \<mapsto> [1, 1, 2, 3]]\<rparr>) NewNameTopic)
   \<and> 3 \<notin> fst ` set (fst (snd (executeCallbacks every_call_returns
                    (example_bus\<lparr>queue := [], max_sem := 999999,
                       topics := [NewNameTopic \<mapsto> [1, 1, 2, 3]]\<rparr>)
                    [1, 1, 2] [VDNSRequest (Some example_request)])))"
proof -
  let ?args = "[VDNSRequest (Some example_request)]"
  let ?eb = "example_bus\<lparr>queue := [], max_sem := 999999\<rparr>"
  let ?late = "example_bus\<lparr>queue := [], max_sem := 999999,
                 topics := [NewNameTopic \<mapsto> [1, 1, 2, 3]]\<rparr>"
  have turn: "processRequests_turn example_bus 0 = LoopContinues ?eb 0 (Some ([1, 1, 2], ?args))"
    by (simp add: processRequests_turn_def example_bus_def Next_def Acquire_def)
  have ok: "\<forall>cb \<in> set [1, 1, 2]. every_call_returns cb ?args = Returns ()"
    by (simp add: every_call_returns_def)
  have sub: "Subscribe NewNameTopic (VFunc 3) ?eb = Returns ?late"
    by (simp add: Subscribe_def subscribers_def example_bus_def NewNameTopic_def)
  have topic: "Topic \<lparr>Topic = NewNameTopic, Args = ?args\<rparr> \<noteq> []"
    by (simp add: NewNameTopic_def)
  from dispatch_calls_each_registration_once [where Call = every_call_returns, OF turn ok]
  obtain p q where p: "queue example_bus = p # q"
    and calls: "snd (executeCallbacks every_call_returns ?eb [1, 1, 2] ?args)
       = (map (\<lambda>cb. (cb, ?args)) [1, 1, 2], Returns ())"
    and late: "\<forall>cb late. cb \<notin> set [1, 1, 2] \<and> Topic p \<noteq> []
                  \<and> Subscribe (Topic p) (VFunc cb) ?eb = Returns late
                \<longrightarrow> cb \<in> set (subscribers late (Topic p))
                  \<and> cb \<notin> fst ` set (fst (snd (executeCallbacks every_call_returns late [1, 1, 2] ?args)))"
    by blast
  from p have "Topic p = NewNameTopic"
    by (auto simp add: example_bus_def)
  with late sub topic
  have "3 \<in> set (subscribers ?late NewNameTopic)
      \<and> 3 \<notin> fst ` set (fst (snd (executeCallbacks every_call_returns ?late [1, 1, 2] ?args)))"
    by simp
  with turn calls sub show ?thesis
    by simp
qed

text \<open>
  Claim C2 as it is written fails where a callback does not take the arguments. On
  the second example bus the turn dispatches the request to the list of callbacks 1 and
  2; the call of callback 1 panics, and callback 2, registered at the moment of
  dispatch, is not called at all.
\<close>

theorem dispatch_stops_at_mismatch:
  "processRequests_turn mismatch_bus 0
     = LoopContinues (mismatch_bus\<lparr>queue := [], max_sem := 999999\<rparr>) 0 (Some ([1, 2], []))
   \<and> snd (executeCallbacks first_is_unary (mismatch_bus\<lparr>queue := [], max_sem := 999999\<rparr>)
            [1, 2] [])
       = ([], Panics CallMismatch)"
  by (simp add: processRequests_turn_def mismatch_bus_def Next_def Acquire_def
      executeCallbacks_def first_is_unary_def)

text \<open>
  The same happens where a call does not return: on the first example bus, with a
  callback 1 that waits for ever, the first registration is entered, the goroutine
  stays there, the two registrations after it are never called, and the slot of the
  semaphore is not given back.
\<close>

lemma dispatch_stops_at_call_that_never_returns:
  "executeCallbacks first_never_returns (example_bus\<lparr>queue := [], max_sem := 999999\<rparr>)
       [1, 1, 2] [VDNSRequest (Some example_request)]
     = (example_bus\<lparr>queue := [], max_sem := 999999\<rparr>,
        [(1, [VDNSRequest (Some example_request)])], Blocks)"
  by (simp add: executeCallbacks_def first_never_returns_def)

section \<open>Properties of the handler of new names\<close>

text \<open>
  On ASCII the lower-case form does not depend on what \<^verbatim>\<open>strings.ToLower\<close> does
  on other strings. In the statements below \<open>low\<close> is that function, \<open>strip\<close> is
  \<^verbatim>\<open>utils.RemoveAsteriskLabel\<close> and \<open>tt\<close> is \<^verbatim>\<open>TrustedTag\<close>: the statements
  hold whatever the three are.
\<close>

lemma ToLower_ASCII: "isASCII s \<Longrightarrow> ToLower low s = map lower_byte s"
  by (simp add: ToLower_def)

lemma newNameEvent_object:
  "snd (newNameEvent tt strip low ns (Some req))
     = Some (if Name req = [] \<or> Domain req = [] then req else normalized strip low req)"
  by (simp add: newNameEvent_def normalized_def Let_def Duplicate_def)

lemma newNameEvent_nil: "fst (newNameEvent tt strip low ns None) = ns"
  by (simp add: newNameEvent_def)

lemma newNameEvent_rejected:
  "\<not> accepted req \<Longrightarrow> fst (newNameEvent tt strip low ns (Some req)) = ns"
  by (auto simp add: newNameEvent_def accepted_def)

lemma newNameEvent_trusted:
  "accepted req \<Longrightarrow> tt (Tag req) \<Longrightarrow>
   fst (newNameEvent tt strip low ns (Some req))
     = ns\<lparr>dnsrequests := dnsrequests ns @
           (if Name (normalized strip low req) \<in> trustedNameFilter ns then []
            else [normalized strip low req]),
         trustedNameFilter := insert (Name (normalized strip low req)) (trustedNameFilter ns)\<rparr>"
  by (simp add: newNameEvent_def accepted_def normalized_def Let_def Duplicate_def
      SendDNSRequest_def)

lemma newNameEvent_other:
  "accepted req \<Longrightarrow> \<not> tt (Tag req) \<Longrightarrow>
   fst (newNameEvent tt strip low ns (Some req))
     = ns\<lparr>dnsrequests := dnsrequests ns @
           (if Name (normalized strip low req) \<in> otherNameFilter ns then []
            else [normalized strip low req]),
         otherNameFilter := insert (Name (normalized strip low req)) (otherNameFilter ns)\<rparr>"
  by (simp add: newNameEvent_def accepted_def normalized_def Let_def Duplicate_def
      SendDNSRequest_def)

text \<open>
  Claim C6, as amended: the handler of new names leaves the records, the tag and the
  source of the request as they are, and leaves the whole request as it is when its
  name or its domain is empty; otherwise it writes into the request what
  \<^verbatim>\<open>strings.ToLower\<close> returns on the name without its asterisk label, and what it
  returns on the domain. A nil pointer stays nil.
\<close>

theorem newNameEvent_rewrites_Name_and_Domain:
  "snd (newNameEvent tt strip low ns None) = None
   \<and> snd (newNameEvent tt strip low ns (Some req))
       = Some (if Name req = [] \<or> Domain req = [] then req
               else req\<lparr>Name := ToLower low (strip (Name req)),
                        Domain := ToLower low (Domain req)\<rparr>)"
  by (simp add: newNameEvent_object normalized_def) (simp add: newNameEvent_def)

theorem newNameEvent_rewrites_Name_and_Domain_witness:
  "snd (newNameEvent TrustedTag_spec RemoveAsteriskLabel_spec no_unicode active_service
          (Some wildcard_request))
     = Some \<lparr>Name = ''example.com'', Domain = ''example.com'', Records = [],
         Tag = CERT, Source = ''Active Cert''\<rparr>"
  using newNameEvent_rewrites_Name_and_Domain
          [of TrustedTag_spec RemoveAsteriskLabel_spec no_unicode active_service wildcard_request]
  by (simp add: wildcard_request_def RemoveAsteriskLabel_spec_def ToLower_def isASCII_def
      lower_byte_def)

text \<open>
  Claim C6 as it is written fails: on a request whose name and domain have capital
  letters, the request that the handler leaves behind has another name and another
  domain than the one it was called with.
\<close>

theorem newNameEvent_mutates_request:
  "snd (newNameEvent TrustedTag_spec RemoveAsteriskLabel_spec no_unicode active_service
          (Some mixed_case_request))
     = Some \<lparr>Name = ''www.example.com'', Domain = ''example.com'', Records = [],
         Tag = CERT, Source = ''Active Cert''\<rparr>
   \<and> Name mixed_case_request \<noteq> ''www.example.com''
   \<and> Domain mixed_case_request \<noteq> ''example.com''"
  by (simp add: newNameEvent_object normalized_def mixed_case_request_def
      RemoveAsteriskLabel_spec_def ToLower_def isASCII_def lower_byte_def)

text \<open>
  After a list of requests, each filter holds what it held before and the names, as
  normalized, of the requests of its class that got past the first test.
\<close>

lemma newNameEvents_trusted_filter:
  "trustedNameFilter (newNameEvents tt strip low ns reqps)
     = trustedNameFilter ns \<union>
       {Name (normalized strip low r) | r. Some r \<in> set reqps \<and> accepted r \<and> tt (Tag r)}"
proof (induction reqps arbitrary: ns)
  case Nil
  then show ?case by simp
next
  case (Cons reqp reqps)
  show ?case
  proof (cases reqp)
    case None
    then show ?thesis by (simp add: Cons.IH newNameEvent_nil)
  next
    case (Some req)
    consider "\<not> accepted req" | "accepted req" "tt (Tag req)" | "accepted req" "\<not> tt (Tag req)"
      by blast
    then show ?thesis
    proof cases
      case 1
      with Some show ?thesis by (auto simp add: Cons.IH newNameEvent_rejected)
    next
      case 2
      with Some show ?thesis by (auto simp add: Cons.IH newNameEvent_trusted)
    next
      case 3
      with Some show ?thesis by (auto simp add: Cons.IH newNameEvent_other)
    qed
  qed
qed

lemma newNameEvents_other_filter:
  "otherNameFilter (newNameEvents tt strip low ns reqps)
     = otherNameFilter ns \<union>
       {Name (normalized strip low r) | r. Some r \<in> set reqps \<and> accepted r \<and> \<not> tt (Tag r)}"
proof (induction reqps arbitrary: ns)
  case Nil
  then show ?case by simp
next
  case (Cons reqp reqps)
  show ?case
  proof (cases reqp)
    case None
    then show ?thesis by (simp add: Cons.IH newNameEvent_nil)
  next
    case (Some req)
    consider "\<not> accepted req" | "accepted req" "tt (Tag req)" | "accepted req" "\<not> tt (Tag req)"
      by blast
    then show ?thesis
    proof cases
      case 1
      with Some show ?thesis by (auto simp add: Cons.IH newNameEvent_rejected)
    next
      case 2
      with Some show ?thesis by (auto simp add: Cons.IH newNameEvent_trusted)
    next
      case 3
      with Some show ?thesis by (auto simp add: Cons.IH newNameEvent_other)
    qed
  qed
qed

lemma sent_append [simp]:
  "sent ns (ns\<lparr>dnsrequests := dnsrequests ns @ rs, trustedNameFilter := f\<rparr>) = rs"
  "sent ns (ns\<lparr>dnsrequests := dnsrequests ns @ rs, otherNameFilter := f\<rparr>) = rs"
  "sent ns (ns\<lparr>trustedNameFilter := f\<rparr>) = []"
  "sent ns (ns\<lparr>otherNameFilter := f\<rparr>) = []"
  "sent ns ns = []"
  by (simp_all add: sent_def)

text \<open>
  Claim C3, as amended: suppression is by the normalized name (what
  \<^verbatim>\<open>strings.ToLower\<close> returns on the name without its asterisk label) and the trust
  class, among the requests whose name and domain are not empty. On a service that has handled any list of requests since it was made, a
  request is pushed to the inbox, normalized and once, exactly when its name and
  domain are not empty and no request of the list with non-empty name and domain has
  the same trust class and the same normalized name; otherwise nothing is pushed.
\<close>

theorem newNameEvent_forwards_once_per_class:
  "sent (newNameEvents tt strip low (NewNameService cfg re) reqps)
        (fst (newNameEvent tt strip low (newNameEvents tt strip low (NewNameService cfg re) reqps)
                (Some req)))
     = (if Name req \<noteq> [] \<and> Domain req \<noteq> []
           \<and> \<not> (\<exists>r. Some r \<in> set reqps \<and> Name r \<noteq> [] \<and> Domain r \<noteq> []
                  \<and> tt (Tag r) = tt (Tag req)
                  \<and> ToLower low (strip (Name r)) = ToLower low (strip (Name req)))
        then [req\<lparr>Name := ToLower low (strip (Name req)),
                  Domain := ToLower low (Domain req)\<rparr>]
        else [])"
proof -
  let ?ns = "newNameEvents tt strip low (NewNameService cfg re) reqps"
  have start: "trustedNameFilter (NewNameService cfg re) = {}"
    "otherNameFilter (NewNameService cfg re) = {}"
    by (simp_all add: NewNameService_def NewStringFilter_def)
  have "sent ?ns (fst (newNameEvent tt strip low ?ns (Some req)))
      = (if accepted req \<and> \<not> seen_before tt strip low reqps req
         then [normalized strip low req] else [])"
  proof (cases "accepted req")
    case False
    then show ?thesis by (simp add: newNameEvent_rejected)
  next
    case acc: True
    show ?thesis
    proof (cases "tt (Tag req)")
      case True
      with acc show ?thesis
        by (auto simp add: newNameEvent_trusted newNameEvents_trusted_filter seen_before_def
            start)
    next
      case False
      with acc show ?thesis
        by (auto simp add: newNameEvent_other newNameEvents_other_filter seen_before_def
            start)
    qed
  qed
  then show ?thesis
    by (simp add: seen_before_def accepted_def normalized_def)
qed

lemma normalized_examples:
  "normalized RemoveAsteriskLabel_spec no_unicode cert_request = cert_request"
  "normalized RemoveAsteriskLabel_spec no_unicode scrape_request = scrape_request"
  "normalized RemoveAsteriskLabel_spec no_unicode upper_cert_request = cert_request"
  by (simp_all add: normalized_def cert_request_def scrape_request_def upper_cert_request_def
      RemoveAsteriskLabel_spec_def ToLower_def isASCII_def lower_byte_def)

lemma accepted_examples:
  "accepted cert_request" "accepted scrape_request" "accepted upper_cert_request"
  "\<not> accepted no_domain_request"
  by (simp_all add: accepted_def cert_request_def scrape_request_def upper_cert_request_def
      no_domain_request_def)

lemma trusted_examples:
  "TrustedTag_spec (Tag cert_request)" "\<not> TrustedTag_spec (Tag scrape_request)"
  "TrustedTag_spec (Tag upper_cert_request)"
  by (simp_all add: TrustedTag_spec_def cert_request_def scrape_request_def
      upper_cert_request_def CERT_def SCRAPE_def AXFR_def)

theorem newNameEvent_forwards_once_per_class_witness:
  "sent active_service
     (fst (newNameEvent TrustedTag_spec RemoveAsteriskLabel_spec no_unicode active_service
             (Some cert_request))) = [cert_request]
   \<and> sent (newNameEvents TrustedTag_spec RemoveAsteriskLabel_spec no_unicode active_service
             [Some cert_request])
       (fst (newNameEvent TrustedTag_spec RemoveAsteriskLabel_spec no_unicode
               (newNameEvents TrustedTag_spec RemoveAsteriskLabel_spec no_unicode active_service
                  [Some cert_request])
               (Some scrape_request))) = [scrape_request]
   \<and> sent (newNameEvents TrustedTag_spec RemoveAsteriskLabel_spec no_unicode active_service
             [Some cert_request, Some scrape_request])
       (fst (newNameEvent TrustedTag_spec RemoveAsteriskLabel_spec no_unicode
               (newNameEvents TrustedTag_spec RemoveAsteriskLabel_spec no_unicode active_service
                  [Some cert_request, Some scrape_request])
               (Some cert_request))) = []
   \<and> sent (newNameEvents TrustedTag_spec RemoveAsteriskLabel_spec no_unicode active_service
             [Some cert_request, Some scrape_request])
       (fst (newNameEvent TrustedTag_spec RemoveAsteriskLabel_spec no_unicode
               (newNameEvents TrustedTag_spec RemoveAsteriskLabel_spec no_unicode active_service
                  [Some cert_request, Some scrape_request])
               (Some scrape_request))) = []"
proof -
  note inst = newNameEvent_forwards_once_per_class
    [of TrustedTag_spec RemoveAsteriskLabel_spec no_unicode active_config example_sanityRE]
  note facts = accepted_examples [unfolded accepted_def]
    normalized_examples [unfolded normalized_def] trusted_examples
  have names: "ToLower no_unicode (RemoveAsteriskLabel_spec (Name cert_request)) = Name cert_request"
    "ToLower no_unicode (RemoveAsteriskLabel_spec (Name scrape_request)) = Name cert_request"
    by (simp_all add: cert_request_def scrape_request_def RemoveAsteriskLabel_spec_def
        ToLower_def isASCII_def lower_byte_def)
  have 1: "sent active_service
     (fst (newNameEvent TrustedTag_spec RemoveAsteriskLabel_spec no_unicode active_service
             (Some cert_request))) = [cert_request]"
    using inst [of "[]" cert_request] facts by (simp add: active_service_def)
  have 2: "sent (newNameEvents TrustedTag_spec RemoveAsteriskLabel_spec no_unicode active_service
             [Some cert_request])
       (fst (newNameEvent TrustedTag_spec RemoveAsteriskLabel_spec no_unicode
               (newNameEvents TrustedTag_spec RemoveAsteriskLabel_spec no_unicode active_service
                  [Some cert_request])
               (Some scrape_request))) = [scrape_request]"
    using inst [of "[Some cert_request]" scrape_request] facts names
    by (simp add: active_service_def del: newNameEvents.simps)
  have 3: "sent (newNameEvents TrustedTag_spec RemoveAsteriskLabel_spec no_unicode active_service
             [Some cert_request, Some scrape_request])
       (fst (newNameEvent TrustedTag_spec RemoveAsteriskLabel_spec no_unicode
               (newNameEvents TrustedTag_spec RemoveAsteriskLabel_spec no_unicode active_service
                  [Some cert_request, Some scrape_request])
               (Some cert_request))) = []"
    using inst [of "[Some cert_request, Some scrape_request]" cert_request] facts names
    by (auto simp add: active_service_def simp del: newNameEvents.simps)
  have 4: "sent (newNameEvents TrustedTag_spec RemoveAsteriskLabel_spec no_unicode active_service
             [Some cert_request, Some scrape_request])
       (fst (newNameEvent TrustedTag_spec RemoveAsteriskLabel_spec no_unicode
               (newNameEvents TrustedTag_spec RemoveAsteriskLabel_spec no_unicode active_service
                  [Some cert_request, Some scrape_request])
               (Some scrape_request))) = []"
    using inst [of "[Some cert_request, Some scrape_request]" scrape_request] facts names
    by (auto simp add: active_service_def simp del: newNameEvents.simps)
  from 1 2 3 4 show ?thesis by (simp del: newNameEvents.simps)
qed

text \<open>
  Claim C3 as it is written fails in two ways. The first request that carries a name
  with a trusted tag is not forwarded when its domain is empty. And after a request
  for the name in capital letters, the first request that carries the name in small
  letters, with the same trusted tag, is not forwarded either: it is a duplicate of
  what the first one was normalized to.
\<close>

theorem newNameEvent_first_request_dropped:
  "sent active_service
     (fst (newNameEvent TrustedTag_spec RemoveAsteriskLabel_spec no_unicode active_service
             (Some no_domain_request))) = []
   \<and> Name upper_cert_request \<noteq> Name cert_request
   \<and> sent (newNameEvents TrustedTag_spec RemoveAsteriskLabel_spec no_unicode active_service
             [Some upper_cert_request])
       (fst (newNameEvent TrustedTag_spec RemoveAsteriskLabel_spec no_unicode
               (newNameEvents TrustedTag_spec RemoveAsteriskLabel_spec no_unicode active_service
                  [Some upper_cert_request])
               (Some cert_request))) = []"
proof -
  have 1: "sent active_service
     (fst (newNameEvent TrustedTag_spec RemoveAsteriskLabel_spec no_unicode active_service
             (Some no_domain_request))) = []"
    by (simp add: newNameEvent_rejected accepted_examples)
  have 2: "Name upper_cert_request \<noteq> Name cert_request"
    by (simp add: upper_cert_request_def cert_request_def)
  let ?ns = "newNameEvents TrustedTag_spec RemoveAsteriskLabel_spec no_unicode active_service
               [Some upper_cert_request]"
  have "Name cert_request \<in> trustedNameFilter ?ns"
    by (simp only: newNameEvents_trusted_filter)
       (auto simp add: accepted_examples trusted_examples normalized_examples
          intro: exI [of _ upper_cert_request])
  then have 3: "sent ?ns
       (fst (newNameEvent TrustedTag_spec RemoveAsteriskLabel_spec no_unicode ?ns (Some cert_request))) = []"
    by (simp add: newNameEvent_trusted accepted_examples trusted_examples normalized_examples
        del: newNameEvents.simps)
  from 1 2 3 show ?thesis by (simp del: newNameEvents.simps)
qed

section \<open>Properties of the dispatch of an accepted name\<close>

lemma performRequest_passive:
  "Passive (config ns) \<Longrightarrow>
   performRequest now ns eb (Some req) =
     Returns (ns\<lparr>active := now, filter_ns := insert (Name req) (filter_ns ns)\<rparr>,
       eb\<lparr>queue := queue eb @
         (if Name req \<notin> filter_ns ns \<and> sanityRE ns (Name req)
          then [\<lparr>Topic = OutputTopic, Args = [VOutput (output_of req)]\<rparr>] else [])\<rparr>)"
  by (simp add: performRequest_def SetActive_def Duplicate_def Publish_queue OutputTopic_def
      output_of_def)

lemma performRequest_active:
  "\<not> Passive (config ns) \<Longrightarrow>
   performRequest now ns eb reqp =
     Returns (ns\<lparr>active := now\<rparr>,
       eb\<lparr>queue := queue eb @ [\<lparr>Topic = ResolveNameTopic, Args = [VDNSRequest reqp]\<rparr>]\<rparr>)"
  by (simp add: performRequest_def SetActive_def Publish_queue ResolveNameTopic_def)

text \<open>
  Claim C5: \<^verbatim>\<open>performRequest\<close> branches on the mode. In passive mode, a name that
  matches the expression and is not yet in the output filter makes exactly one
  publication, the output record on the output topic; and whatever the name, passive
  mode publishes nothing on the resolve topic. Out of passive mode the call publishes
  exactly the request, on the resolve topic, no output, and the service is as before
  but for the time of last activity.
\<close>

theorem performRequest_branches_on_mode:
  "(Passive (config ns) \<and> Name req \<notin> filter_ns ns \<and> sanityRE ns (Name req) \<longrightarrow>
      (\<exists>ns' eb'. performRequest now ns eb (Some req) = Returns (ns', eb')
         \<and> published eb eb' = [\<lparr>Topic = OutputTopic, Args = [VOutput (output_of req)]\<rparr>]
         \<and> on_topic ResolveNameTopic (published eb eb') = []))
   \<and> (Passive (config ns) \<longrightarrow>
      (\<exists>ns' eb'. performRequest now ns eb (Some req) = Returns (ns', eb')
         \<and> on_topic ResolveNameTopic (published eb eb') = []))
   \<and> (\<not> Passive (config ns) \<longrightarrow>
      (\<exists>eb'. performRequest now ns eb reqp = Returns (ns\<lparr>active := now\<rparr>, eb')
         \<and> published eb eb' = [\<lparr>Topic = ResolveNameTopic, Args = [VDNSRequest reqp]\<rparr>]
         \<and> on_topic OutputTopic (published eb eb') = []))"
  by (simp add: performRequest_passive performRequest_active on_topic_def
      OutputTopic_def ResolveNameTopic_def)

theorem performRequest_branches_on_mode_witness:
  "Passive (config passive_service)
   \<and> Name example_request \<notin> filter_ns passive_service
   \<and> sanityRE passive_service (Name example_request)
   \<and> (\<exists>ns' eb'. performRequest 7 passive_service NewEventBus (Some example_request)
                   = Returns (ns', eb')
         \<and> published NewEventBus eb'
             = [\<lparr>Topic = OutputTopic, Args = [VOutput (output_of example_request)]\<rparr>]
         \<and> on_topic ResolveNameTopic (published NewEventBus eb') = [])
   \<and> \<not> Passive (config active_service)
   \<and> (\<exists>eb'. performRequest 7 active_service NewEventBus (Some example_request)
                = Returns (active_service\<lparr>active := 7\<rparr>, eb')
         \<and> published NewEventBus eb'
             = [\<lparr>Topic = ResolveNameTopic, Args = [VDNSRequest (Some example_request)]\<rparr>]
         \<and> on_topic OutputTopic (published NewEventBus eb') = [])"
proof -
  have p: "Passive (config passive_service)"
    by (simp add: passive_service_def NewNameService_def passive_config_def)
  have fresh: "Name example_request \<notin> filter_ns passive_service"
    by (simp add: passive_service_def NewNameService_def NewStringFilter_def)
  have ok: "sanityRE passive_service (Name example_request)"
    by (simp add: passive_service_def NewNameService_def example_sanityRE_def
        example_request_def)
  have a: "\<not> Passive (config active_service)"
    by (simp add: active_service_def NewNameService_def active_config_def)
  from performRequest_branches_on_mode
         [of passive_service example_request 7 NewEventBus "Some example_request"]
       performRequest_branches_on_mode
         [of active_service example_request 7 NewEventBus "Some example_request"]
       p fresh ok a
  show ?thesis by simp
qed

text \<open>
  Claim C9: every publication that \<^verbatim>\<open>performRequest\<close> makes in passive mode is on
  the output topic and carries one output record, whose name, domain, tag and source
  are those of the request, whose timestamp is the zero time and whose list of
  addresses is empty.
\<close>

theorem performRequest_output_fields:
  assumes "Passive (config ns)"
      and "performRequest now ns eb (Some req) = Returns (ns', eb')"
  shows "\<forall>p \<in> set (published eb eb').
           Topic p = OutputTopic
         \<and> Args p = [VOutput \<lparr>Timestamp = 0, OutName = Name req, OutDomain = Domain req,
                        Addresses = [], OutTag = Tag req, OutSource = Source req\<rparr>]"
  using assms by (auto simp add: performRequest_passive output_of_def split: if_splits)

theorem performRequest_output_fields_witness:
  "Passive (config passive_service)
   \<and> performRequest 7 passive_service NewEventBus (Some example_request)
       = Returns (passive_service\<lparr>active := 7, filter_ns := {''x.example.com''}\<rparr>,
           NewEventBus\<lparr>queue := [\<lparr>Topic = OutputTopic,
              Args = [VOutput (output_of example_request)]\<rparr>]\<rparr>)
   \<and> published NewEventBus (NewEventBus\<lparr>queue := [\<lparr>Topic = OutputTopic,
              Args = [VOutput (output_of example_request)]\<rparr>]\<rparr>)
       = [\<lparr>Topic = OutputTopic, Args = [VOutput (output_of example_request)]\<rparr>]
   \<and> [VOutput (output_of example_request)]
       = [VOutput \<lparr>Timestamp = 0, OutName = ''x.example.com'',
                      OutDomain = ''example.com'', Addresses = [], OutTag = ''scrape'',
                      OutSource = ''Baidu''\<rparr>]"
proof -
  have p: "Passive (config passive_service)"
    by (simp add: passive_service_def NewNameService_def passive_config_def)
  have run: "performRequest 7 passive_service NewEventBus (Some example_request)
       = Returns (passive_service\<lparr>active := 7, filter_ns := {''x.example.com''}\<rparr>,
           NewEventBus\<lparr>queue := [\<lparr>Topic = OutputTopic,
              Args = [VOutput (output_of example_request)]\<rparr>]\<rparr>)"
    by (simp add: performRequest_passive [OF p])
       (simp add: passive_service_def NewNameService_def NewStringFilter_def
          example_sanityRE_def example_request_def NewEventBus_def NewQueue_def)
  have pub: "published NewEventBus (NewEventBus\<lparr>queue := [\<lparr>Topic = OutputTopic,
              Args = [VOutput (output_of example_request)]\<rparr>]\<rparr>)
       = [\<lparr>Topic = OutputTopic, Args = [VOutput (output_of example_request)]\<rparr>]"
    by (simp add: published_def NewEventBus_def NewQueue_def)
  from performRequest_output_fields [OF p run] pub
  have "[VOutput (output_of example_request)]
       = [VOutput \<lparr>Timestamp = 0, OutName = Name example_request,
            OutDomain = Domain example_request, Addresses = [], OutTag = Tag example_request,
            OutSource = Source example_request\<rparr>]"
    by simp
  with p run pub show ?thesis
    by (simp add: example_request_def SCRAPE_def)
qed

section \<open>Properties of the derivation of subdomains\<close>

lemma timesForSubdomain_running:
  "\<not> quit ns \<Longrightarrow>
   timesForSubdomain ns sub
     = Returns (ns\<lparr>times_loop := \<lparr>curIdx = 1,
          subdomains = (subdomains (times_loop ns))(sub \<mapsto> next_count ns sub)\<rparr>\<rparr>,
        next_count ns sub)"
  by (simp add: timesForSubdomain_def Append_def NewQueue_def next_count_def times_after_def
      times_maxIdx_def Let_def)

text \<open>Once the service has quit, the call waits for an answer that never comes.\<close>

lemma timesForSubdomain_quit: "quit ns \<Longrightarrow> timesForSubdomain ns sub = Blocks"
  by (simp add: timesForSubdomain_def)

lemma checkSubdomain_rejects:
  "\<not> passes_checks req \<Longrightarrow> checkSubdomain ns eb req = Returns (ns, eb)"
  by (auto simp add: checkSubdomain_def passes_checks_def Let_def)

lemma passes_checks_tests:
  assumes "passes_checks req"
  shows "\<not> length (Split (Name req) CHR ''.'') < 2"
    and "\<not> int (length (Split (Name req) CHR ''.'')) - 1
           < int (length (Split (Domain req) CHR ''.''))"
    and "Split (Name req) CHR ''.'' ! 1 \<noteq> ''_tcp''"
    and "Split (Name req) CHR ''.'' ! 1 \<noteq> ''_udp''"
    and "Split (Name req) CHR ''.'' ! 1 \<noteq> ''_tls''"
  using assms by (auto simp add: passes_checks_def Let_def)

lemma checkSubdomain_no_graph:
  assumes "passes_checks req" "graph_ns ns = None" "\<not> quit ns"
  shows "checkSubdomain ns eb req
     = Returns (ns\<lparr>times_loop := \<lparr>curIdx = 1,
          subdomains = (subdomains (times_loop ns))
            (candidate req \<mapsto> next_count ns (candidate req))\<rparr>\<rparr>,
        eb\<lparr>queue := queue eb @
          [promotion req (candidate req) (next_count ns (candidate req))]\<rparr>)"
  using passes_checks_tests [OF assms(1)] assms(2,3)
  by (simp add: checkSubdomain_def Let_def timesForSubdomain_running candidate_def
      promotion_def Publish_queue NewSubdomainTopic_def del: One_nat_def)

lemma checkSubdomain_promotes:
  assumes "passes_checks req" "not_alias ns (candidate req) (Domain req)" "\<not> quit ns"
  shows "\<exists>ns'. checkSubdomain ns eb req
     = Returns (ns', eb\<lparr>queue := queue eb @
          [promotion req (candidate req) (next_count ns (candidate req))]\<rparr>)"
proof (cases "graph_ns ns")
  case None
  with assms show ?thesis by (simp add: checkSubdomain_no_graph)
next
  case (Some g)
  let ?params = "\<lparr>ParamUUID = UUID (config ns), ParamName = candidate req,
                   ParamDomain = Domain req\<rparr>"
  from assms(2) Some have no: "\<not> IsCNAMENode g ?params"
    by (simp add: not_alias_def)
  from passes_checks_tests [OF assms(1)] Some no assms(3) show ?thesis
    by (simp add: checkSubdomain_def Let_def timesForSubdomain_running next_count_def
        candidate_def promotion_def Publish_queue NewSubdomainTopic_def del: One_nat_def)
qed

text \<open>With a graph that reports the subdomain as an alias nothing is published.\<close>

lemma checkSubdomain_alias:
  assumes "graph_ns ns = Some g"
      and "IsCNAMENode g \<lparr>ParamUUID = UUID (config ns), ParamName = candidate req,
             ParamDomain = Domain req\<rparr>"
  shows "\<exists>ns'. checkSubdomain ns eb req = Returns (ns', eb)"
  using assms by (simp add: checkSubdomain_def Let_def candidate_def)

text \<open>
  \<^verbatim>\<open>Resolved\<close> hands a name in scope to \<^verbatim>\<open>checkSubdomain\<close>, and drops a name out
  of scope.
\<close>

lemma Resolved_in_scope:
  "IsDomainInScope (config ns) (Name req) \<Longrightarrow>
   Resolved now ns eb (Some req) = checkSubdomain (ns\<lparr>active := now\<rparr>) eb req"
  by (simp add: Resolved_def SetActive_def)

lemma Resolved_out_of_scope:
  "\<not> IsDomainInScope (config ns) (Name req) \<Longrightarrow>
   Resolved now ns eb (Some req) = Returns (ns\<lparr>active := now\<rparr>, eb)"
  by (simp add: Resolved_def SetActive_def)

lemma active_service_fresh:
  "graph_ns active_service = None" "\<not> quit active_service"
  "subdomains (times_loop active_service) = Map.empty" "graph_calls active_service = []"
  by (simp_all add: active_service_def NewNameService_def NewTimesLoop_def)

lemma passes_www: "passes_checks resolved_www" "candidate resolved_www = ''foo.example.com''"
  by (simp_all add: passes_checks_def candidate_def resolved_www_def)

lemma passes_tcp: "passes_checks resolved_tcp" "candidate resolved_tcp = ''example.com''"
  by (simp_all add: passes_checks_def candidate_def resolved_tcp_def)

text \<open>
  Claim C8, as amended: on a service without a graph (the handle is nil, as it is
  until \<^verbatim>\<open>RegisterGraph\<close> sets it) whose quit channel is open, a request that passes
  the tests on the number of labels and on the service label is promoted:
  \<^verbatim>\<open>checkSubdomain\<close> returns, it has published exactly one request, on the topic of
  new subdomains, with the derived subdomain and its count, and it has made no query
  to the graph.
\<close>

theorem checkSubdomain_without_graph:
  assumes "graph_ns ns = None" and "\<not> quit ns" and "passes_checks req"
  shows "\<exists>ns' eb'. checkSubdomain ns eb req = Returns (ns', eb')
           \<and> published eb eb'
               = [\<lparr>Topic = NewSubdomainTopic,
                    Args = [VDNSRequest (Some \<lparr>Name = candidate req, Domain = Domain req,
                              Records = [], Tag = Tag req, Source = Source req\<rparr>),
                            VInt (next_count ns (candidate req))]\<rparr>]
           \<and> graph_calls ns' = graph_calls ns"
  using assms by (simp add: checkSubdomain_no_graph promotion_def)

theorem checkSubdomain_without_graph_witness:
  "graph_ns active_service = None \<and> \<not> quit active_service \<and> passes_checks resolved_www
   \<and> checkSubdomain active_service NewEventBus resolved_www
       = Returns (active_service\<lparr>times_loop := \<lparr>curIdx = 1,
                     subdomains = [''foo.example.com'' \<mapsto> 1]\<rparr>\<rparr>,
           NewEventBus\<lparr>queue := [\<lparr>Topic = NewSubdomainTopic,
              Args = [VDNSRequest (Some \<lparr>Name = ''foo.example.com'', Domain = ''example.com'',
                        Records = [], Tag = DNS, Source = ''DNS''\<rparr>), VInt 1]\<rparr>]\<rparr>)
   \<and> graph_calls (active_service\<lparr>times_loop := \<lparr>curIdx = 1,
                     subdomains = [''foo.example.com'' \<mapsto> 1]\<rparr>\<rparr>) = []"
proof -
  have run: "checkSubdomain active_service NewEventBus resolved_www
       = Returns (active_service\<lparr>times_loop := \<lparr>curIdx = 1,
                     subdomains = [''foo.example.com'' \<mapsto> 1]\<rparr>\<rparr>,
           NewEventBus\<lparr>queue := [\<lparr>Topic = NewSubdomainTopic,
              Args = [VDNSRequest (Some \<lparr>Name = ''foo.example.com'', Domain = ''example.com'',
                        Records = [], Tag = DNS, Source = ''DNS''\<rparr>), VInt 1]\<rparr>]\<rparr>)"
    by (simp add: checkSubdomain_no_graph [OF passes_www(1) active_service_fresh(1,2)]
        passes_www(2) next_count_def times_after_def active_service_fresh promotion_def)
       (simp add: resolved_www_def NewEventBus_def NewQueue_def)
  from checkSubdomain_without_graph
         [OF active_service_fresh(1,2) passes_www(1), of NewEventBus]
       run active_service_fresh passes_www(1)
  show ?thesis by simp
qed

text \<open>
  Claim C8 as it is written fails on a service that has quit: no graph is registered,
  the name passes the tests on the labels, and \<^verbatim>\<open>checkSubdomain\<close> waits for ever
  for a count, because the counting goroutine has returned. Nothing is published.
\<close>

theorem checkSubdomain_blocks_after_quit:
  "graph_ns stopped_service = None
   \<and> passes_checks resolved_www
   \<and> checkSubdomain stopped_service NewEventBus resolved_www = Blocks"
proof -
  have 1: "graph_ns stopped_service = None" and 2: "quit stopped_service"
    by (simp_all add: stopped_service_def active_service_fresh)
  from passes_checks_tests [OF passes_www(1)] 1 2
  have "checkSubdomain stopped_service NewEventBus resolved_www = Blocks"
    by (simp add: checkSubdomain_def Let_def timesForSubdomain_quit del: One_nat_def)
  with 1 passes_www(1) show ?thesis by simp
qed

text \<open>
  Claim C1, as amended: on a running service whose graph, if it has one, reports
  neither "foo.example.com" nor "example.com" as an alias under the root "example.com",
  and for the root domain "example.com": the name "www.foo.example.com" promotes
  "foo.example.com"; the name "a.b" promotes nothing; the test on the service label
  looks at the second label, so the name "_sip._tcp.example.com" promotes nothing,
  and the name "_tcp.example.com", whose second label is "example", promotes
  "example.com".
\<close>

theorem checkSubdomain_examples:
  assumes "\<not> quit ns"
      and "not_alias ns ''foo.example.com'' ''example.com''"
      and "not_alias ns ''example.com'' ''example.com''"
  shows "(\<exists>ns'. checkSubdomain ns eb
                   (req\<lparr>Name := ''www.foo.example.com'', Domain := ''example.com''\<rparr>)
            = Returns (ns', eb\<lparr>queue := queue eb @
                [\<lparr>Topic = NewSubdomainTopic,
                  Args = [VDNSRequest (Some \<lparr>Name = ''foo.example.com'',
                            Domain = ''example.com'', Records = [], Tag = Tag req,
                            Source = Source req\<rparr>),
                          VInt (next_count ns ''foo.example.com'')]\<rparr>]\<rparr>))
       \<and> checkSubdomain ns eb (req\<lparr>Name := ''a.b'', Domain := ''example.com''\<rparr>)
            = Returns (ns, eb)
       \<and> checkSubdomain ns eb
            (req\<lparr>Name := ''_sip._tcp.example.com'', Domain := ''example.com''\<rparr>)
            = Returns (ns, eb)
       \<and> (\<exists>ns'. checkSubdomain ns eb
                   (req\<lparr>Name := ''_tcp.example.com'', Domain := ''example.com''\<rparr>)
            = Returns (ns', eb\<lparr>queue := queue eb @
                [\<lparr>Topic = NewSubdomainTopic,
                  Args = [VDNSRequest (Some \<lparr>Name = ''example.com'',
                            Domain = ''example.com'', Records = [], Tag = Tag req,
                            Source = Source req\<rparr>),
                          VInt (next_count ns ''example.com'')]\<rparr>]\<rparr>))"
proof -
  let ?www = "req\<lparr>Name := ''www.foo.example.com'', Domain := ''example.com''\<rparr>"
  let ?tcp = "req\<lparr>Name := ''_tcp.example.com'', Domain := ''example.com''\<rparr>"
  have www: "passes_checks ?www" "candidate ?www = ''foo.example.com''"
    by (simp_all add: passes_checks_def candidate_def)
  have tcp: "passes_checks ?tcp" "candidate ?tcp = ''example.com''"
    by (simp_all add: passes_checks_def candidate_def)
  have short: "\<not> passes_checks (req\<lparr>Name := ''a.b'', Domain := ''example.com''\<rparr>)"
    by (simp add: passes_checks_def)
  have srv: "\<not> passes_checks
      (req\<lparr>Name := ''_sip._tcp.example.com'', Domain := ''example.com''\<rparr>)"
    by (simp add: passes_checks_def)
  from checkSubdomain_promotes [OF www(1), of ns eb] assms
  have 1: "\<exists>ns'. checkSubdomain ns eb ?www
     = Returns (ns', eb\<lparr>queue := queue eb @
          [promotion ?www ''foo.example.com'' (next_count ns ''foo.example.com'')]\<rparr>)"
    by (simp add: www(2))
  from checkSubdomain_promotes [OF tcp(1), of ns eb] assms
  have 2: "\<exists>ns'. checkSubdomain ns eb ?tcp
     = Returns (ns', eb\<lparr>queue := queue eb @
          [promotion ?tcp ''example.com'' (next_count ns ''example.com'')]\<rparr>)"
    by (simp add: tcp(2))
  from 1 2 checkSubdomain_rejects [OF short] checkSubdomain_rejects [OF srv]
  show ?thesis by (simp add: promotion_def)
qed

theorem checkSubdomain_examples_witness:
  "\<not> quit active_service
   \<and> not_alias active_service ''foo.example.com'' ''example.com''
   \<and> not_alias active_service ''example.com'' ''example.com''
   \<and> checkSubdomain active_service NewEventBus
        (resolved_www\<lparr>Name := ''a.b'', Domain := ''example.com''\<rparr>)
       = Returns (active_service, NewEventBus)
   \<and> checkSubdomain active_service NewEventBus
        (resolved_www\<lparr>Name := ''_sip._tcp.example.com'', Domain := ''example.com''\<rparr>)
       = Returns (active_service, NewEventBus)
   \<and> (\<exists>ns'. checkSubdomain active_service NewEventBus
               (resolved_www\<lparr>Name := ''www.foo.example.com'', Domain := ''example.com''\<rparr>)
        = Returns (ns', NewEventBus\<lparr>queue := queue NewEventBus @
            [\<lparr>Topic = NewSubdomainTopic,
              Args = [VDNSRequest (Some \<lparr>Name = ''foo.example.com'',
                        Domain = ''example.com'', Records = [], Tag = Tag resolved_www,
                        Source = Source resolved_www\<rparr>),
                      VInt (next_count active_service ''foo.example.com'')]\<rparr>]\<rparr>))
   \<and> next_count active_service ''foo.example.com'' = 1"
proof -
  have free: "not_alias active_service ''foo.example.com'' ''example.com''"
    "not_alias active_service ''example.com'' ''example.com''"
    by (simp_all add: not_alias_def active_service_fresh)
  have count: "next_count active_service ''foo.example.com'' = 1"
    by (simp add: next_count_def times_after_def active_service_fresh)
  from checkSubdomain_examples
         [OF active_service_fresh(2) free, of NewEventBus resolved_www]
       active_service_fresh(2) free count
  show ?thesis by simp
qed

text \<open>
  Claim C1 as it is written fails at its second example: for the name
  "_tcp.example.com" with the root "example.com" the second label is "example", the
  test on the service label passes, and "example.com" is promoted with the count 1.
\<close>

theorem checkSubdomain_tcp_is_promoted:
  "checkSubdomain active_service NewEventBus resolved_tcp
     = Returns (active_service\<lparr>times_loop := \<lparr>curIdx = 1,
                   subdomains = [''example.com'' \<mapsto> 1]\<rparr>\<rparr>,
         NewEventBus\<lparr>queue := [\<lparr>Topic = NewSubdomainTopic,
            Args = [VDNSRequest (Some \<lparr>Name = ''example.com'', Domain = ''example.com'',
                      Records = [], Tag = DNS, Source = ''DNS''\<rparr>), VInt 1]\<rparr>]\<rparr>)"
  by (simp add: checkSubdomain_no_graph [OF passes_tcp(1) active_service_fresh(1,2)]
      passes_tcp(2) next_count_def times_after_def active_service_fresh promotion_def)
     (simp add: resolved_tcp_def NewEventBus_def NewQueue_def)

section \<open>Properties of the observation counter\<close>


lemma answers_step:
  "snd (processTimesRequests False l (r # q))
     = (Times r, times_after l (Subdomain r)) # snd (processTimesRequests False (served l r) q)"
  by (simp add: Let_def times_after_def served_def split_beta)

lemma answers_empty: "snd (processTimesRequests False l []) = []"
  by simp

text \<open>Every request of the queue is answered, on its own channel, in the order of the queue.\<close>

lemma answers_channels:
  "map fst (snd (processTimesRequests False l q)) = map Times q"
  by (induction q arbitrary: l)
     (simp_all add: answers_step answers_empty del: processTimesRequests.simps)

lemma answers_length: "length (snd (processTimesRequests False l q)) = length q"
  using answers_channels [of l q] by (metis length_map)

text \<open>After the quit channel is closed nothing is answered.\<close>

lemma answers_after_quit: "snd (processTimesRequests True l q) = []"
  by simp









end
